theory Spec2Isabelle
  imports Complex_Main "HOL-Library.Char_ord" "HOL-Library.List_Lexorder"
    "HOL-Library.AList" "HOL-Library.Multiset"
begin

section \<open>Python text\<close>

text \<open>
  A Python \<^verbatim>\<open>str\<close> is a \<^typ>\<open>string\<close>: a list of code points, here the code points
  below 256. \<open>isspace\<close> is \<^verbatim>\<open>str.isspace\<close> on one such code point (the characters that
  \<^verbatim>\<open>str.strip()\<close> removes and that \<^verbatim>\<open>\s\<close> matches in a \<^verbatim>\<open>str\<close> pattern): TAB, LF, VT,
  FF, CR, the separators 0x1C to 0x1F, SPACE, NEL (0x85) and NBSP (0xA0).
\<close>

definition isspace :: "char \<Rightarrow> bool" where
  "isspace c = (let n = (of_char c :: nat) in
     (9 \<le> n \<and> n \<le> 13) \<or> (28 \<le> n \<and> n \<le> 32) \<or> n = 133 \<or> n = 160)"

text \<open>\<^verbatim>\<open>\d\<close> and the digits of a float literal: below 256 these are \<^verbatim>\<open>0\<close> to \<^verbatim>\<open>9\<close>.\<close>

definition is_digit :: "char \<Rightarrow> bool" where
  "is_digit c = (let n = (of_char c :: nat) in 48 \<le> n \<and> n \<le> 57)"

text \<open>\<^verbatim>\<open>s.strip()\<close>: whitespace removed at both ends.\<close>

definition strip :: "string \<Rightarrow> string" where
  "strip s = rev (dropWhile isspace (rev (dropWhile isspace s)))"

text \<open>\<^verbatim>\<open>s.split(sep)\<close> for a separator of one character; the result is never empty.\<close>

fun split_on :: "char \<Rightarrow> string \<Rightarrow> string list" where
  "split_on sep [] = [[]]"
| "split_on sep (c # cs) =
     (if c = sep then [] # split_on sep cs
      else (case split_on sep cs of [] \<Rightarrow> [[c]] | l # ls \<Rightarrow> (c # l) # ls))"

text \<open>\<^verbatim>\<open>sep.join(lines)\<close>.\<close>

fun join :: "string \<Rightarrow> string list \<Rightarrow> string" where
  "join sep [] = []"
| "join sep [l] = l"
| "join sep (l # ls) = l @ sep @ join sep ls"

text \<open>\<^verbatim>\<open>pat in s\<close> and \<^verbatim>\<open>s.endswith(':')\<close>.\<close>

fun contains :: "string \<Rightarrow> string \<Rightarrow> bool" where
  "contains pat [] = (pat = [])"
| "contains pat (c # cs) = (take (length pat) (c # cs) = pat \<or> contains pat cs)"

definition ends_with_colon :: "string \<Rightarrow> bool" where
  "ends_with_colon s = (s \<noteq> [] \<and> last s = CHR '':'')"

text \<open>
  \<^verbatim>\<open>str.lower\<close> on one code point below 256: the letters A to Z and the Latin-1 capitals
  0xC0 to 0xDE (without the multiplication sign 0xD7) move up by 32.
\<close>

definition lower_char :: "char \<Rightarrow> char" where
  "lower_char c = (let n = (of_char c :: nat) in
     if (65 \<le> n \<and> n \<le> 90) \<or> (192 \<le> n \<and> n \<le> 222 \<and> n \<noteq> 215)
     then char_of (n + 32) else c)"

definition lower :: "string \<Rightarrow> string" where
  "lower s = map lower_char s"

definition newline :: char where
  "newline = CHR 0x0A"

section \<open>Python floats\<close>

text \<open>
  A Python \<^verbatim>\<open>float\<close> is a binary64 value: a finite number (given by its real value, with
  the negative zero kept apart), an infinity or a NaN. The comparisons are those of IEEE 754:
  every comparison with a NaN is false and the two zeros are equal.
\<close>

datatype pyfloat = Finite real | NegZero | PosInf | NegInf | NaN

fun real_of :: "pyfloat \<Rightarrow> real" where
  "real_of (Finite r) = r"
| "real_of _ = 0"

fun float_lt :: "pyfloat \<Rightarrow> pyfloat \<Rightarrow> bool" where
  "float_lt NaN _ = False"
| "float_lt _ NaN = False"
| "float_lt PosInf _ = False"
| "float_lt _ NegInf = False"
| "float_lt NegInf _ = True"
| "float_lt _ PosInf = True"
| "float_lt a b = (real_of a < real_of b)"

definition float_eq :: "pyfloat \<Rightarrow> pyfloat \<Rightarrow> bool" where
  "float_eq a b = (a \<noteq> NaN \<and> b \<noteq> NaN \<and> \<not> float_lt a b \<and> \<not> float_lt b a)"

text \<open>A chapter as the data model wants it: a non-negative real number.\<close>

fun nonneg_real :: "pyfloat \<Rightarrow> bool" where
  "nonneg_real (Finite r) = (0 \<le> r)"
| "nonneg_real NegZero = True"
| "nonneg_real _ = False"

text \<open>
  The built-in \<^verbatim>\<open>float(s)\<close> on a \<^verbatim>\<open>str\<close> and the built-in \<^verbatim>\<open>str(x)\<close> on a float are
  parameters of the functions below (\<open>pyfloat\<close> of type \<^typ>\<open>string \<Rightarrow> pyfloat option\<close>, where
  \<open>None\<close> is \<^verbatim>\<open>ValueError\<close>, and \<open>pystr\<close> of type \<^typ>\<open>pyfloat \<Rightarrow> string\<close>): rounding to
  binary64 and the shortest decimal that reads back are not part of this development.

  \<open>float_exact\<close> is \<^verbatim>\<open>float(s)\<close> with the value of the literal kept exact. It follows the
  grammar of \<^verbatim>\<open>float\<close>: whitespace stripped, digits grouped by single underscores, a sign,
  then \<^verbatim>\<open>inf\<close>, \<^verbatim>\<open>infinity\<close> or \<^verbatim>\<open>nan\<close> in any case, or a decimal number with an optional
  exponent. It is \<^verbatim>\<open>float\<close> itself on every literal whose value is a binary64 number, which
  is where the examples below use it.
\<close>

definition digit_val :: "char \<Rightarrow> nat" where
  "digit_val c = of_char c - 48"

definition nat_of_digits :: "string \<Rightarrow> nat" where
  "nat_of_digits ds = foldl (\<lambda>a c. 10 * a + digit_val c) 0 ds"

fun underscores_ok :: "char option \<Rightarrow> string \<Rightarrow> bool" where
  "underscores_ok prev [] = (prev \<noteq> Some CHR ''_'')"
| "underscores_ok prev (c # cs) =
     ((if c = CHR ''_'' then (case prev of None \<Rightarrow> False | Some p \<Rightarrow> is_digit p)
       else if prev = Some CHR ''_'' then is_digit c else True)
      \<and> underscores_ok (Some c) cs)"

fun split_sign :: "string \<Rightarrow> bool \<times> string" where
  "split_sign [] = (False, [])"
| "split_sign (c # cs) =
     (if c = CHR ''-'' then (True, cs) else if c = CHR ''+'' then (False, cs)
      else (False, c # cs))"

definition parse_decimal :: "string \<Rightarrow> (nat \<times> int) option" where
  "parse_decimal body =
     (let ip = takeWhile is_digit body;
          r1 = dropWhile is_digit body;
          fp = (case r1 of [] \<Rightarrow> [] | c # r \<Rightarrow> if c = CHR ''.'' then takeWhile is_digit r else []);
          r2 = (case r1 of [] \<Rightarrow> [] | c # r \<Rightarrow> if c = CHR ''.'' then dropWhile is_digit r else r1);
          m = nat_of_digits (ip @ fp)
      in if ip @ fp = [] then None
         else (case r2 of
             [] \<Rightarrow> Some (m, - int (length fp))
           | e # r3 \<Rightarrow>
               if e = CHR ''e'' \<or> e = CHR ''E'' then
                 (let ds = snd (split_sign r3) in
                  if ds \<noteq> [] \<and> list_all is_digit ds then
                    Some (m, (if fst (split_sign r3) then - int (nat_of_digits ds)
                              else int (nat_of_digits ds)) - int (length fp))
                  else None)
               else None))"

definition scale10 :: "nat \<Rightarrow> int \<Rightarrow> real" where
  "scale10 m e = (if 0 \<le> e then real m * 10 ^ nat e else real m / 10 ^ nat (- e))"

definition float_exact :: "string \<Rightarrow> pyfloat option" where
  "float_exact s =
     (let t = strip s in
      if \<not> underscores_ok None t then None
      else
        (let u = filter (\<lambda>c. c \<noteq> CHR ''_'') t;
             neg = fst (split_sign u);
             body = snd (split_sign u)
         in if lower body = ''inf'' \<or> lower body = ''infinity''
            then Some (if neg then NegInf else PosInf)
            else if lower body = ''nan'' then Some NaN
            else (case parse_decimal body of
                None \<Rightarrow> None
              | Some (m, e) \<Rightarrow>
                  Some (if m = 0 then (if neg then NegZero else Finite 0)
                        else Finite ((if neg then - 1 else 1) * scale10 m e)))))"

section \<open>The record store\<close>

text \<open>
  The store is the dictionary read from \<^verbatim>\<open>List.json\<close>: series name to a dictionary with the
  keys \<^verbatim>\<open>chapter\<close> and \<^verbatim>\<open>category\<close>. The code reads both keys with \<^verbatim>\<open>.get\<close> and a default,
  so either may be missing. A Python dictionary keeps its keys in insertion order and the
  exporter iterates over it, so the store is an association list with distinct keys:
  \<^term>\<open>map_of\<close> reads a key and \<^term>\<open>AList.update\<close> assigns one (in place when the key is
  there, at the end when it is new). Every chapter the program writes is a float.
\<close>

record info =
  "chapter" :: "pyfloat option"
  category :: "string option"

type_synonym store = "(string \<times> info) list"

definition CATEGORIES :: "string list" where
  "CATEGORIES = [''Manga'', ''Manhwa'', ''Manhua'', ''Other'']"

section \<open>The update engine\<close>

text \<open>
  \<^verbatim>\<open>update_series_chapter\<close> of \<^verbatim>\<open>Series_Tracker.py\<close>. It returns \<^verbatim>\<open>False\<close> at three places,
  each after printing its own message: the category is not one of \<open>CATEGORIES\<close>
  (\<open>InvalidCategory\<close>); \<^verbatim>\<open>float\<close> raises \<^verbatim>\<open>ValueError\<close>, or the chapter is below zero
  (both \<open>InvalidChapter\<close>). Otherwise it assigns the record and returns \<^verbatim>\<open>True\<close> after one of
  five messages, the \<open>outcome\<close>. The dictionary is mutated in place: the model returns the
  dictionary as it is after the call. Saving to the file does not change the dictionary.
\<close>

datatype error = InvalidCategory | InvalidChapter

datatype outcome = Added | Progressed bool | CategoryOnly | NoChange | Corrected bool

definition update_series_chapter ::
  "(string \<Rightarrow> pyfloat option) \<Rightarrow> string \<Rightarrow> string \<Rightarrow> string \<Rightarrow> store
     \<Rightarrow> (error + outcome) \<times> store" where
  "update_series_chapter pyfloat series_name chapter_number cat series_data =
     (if cat \<notin> set CATEGORIES then (Inl InvalidCategory, series_data)
      else (case pyfloat chapter_number of
          None \<Rightarrow> (Inl InvalidChapter, series_data)
        | Some ch \<Rightarrow>
            if float_lt ch (Finite 0) then (Inl InvalidChapter, series_data)
            else
              (let is_new = (map_of series_data series_name = None);
                   old_data = (case map_of series_data series_name of
                       None \<Rightarrow> \<lparr>chapter = Some (Finite 0), category = Some cat\<rparr>
                     | Some i \<Rightarrow> i);
                   old_chapter = (case chapter old_data of None \<Rightarrow> Finite 0 | Some c \<Rightarrow> c);
                   old_category = (case category old_data of None \<Rightarrow> cat | Some c \<Rightarrow> c);
                   series_data' = AList.update series_name
                       \<lparr>chapter = Some ch, category = Some cat\<rparr> series_data;
                   category_change = (cat \<noteq> old_category)
               in (Inr (if is_new then Added
                        else if float_lt old_chapter ch then Progressed category_change
                        else if float_eq ch old_chapter \<and> category_change then CategoryOnly
                        else if float_eq ch old_chapter then NoChange
                        else Corrected category_change),
                   series_data'))))"


section \<open>The importer: text to store\<close>

text \<open>
  \<^verbatim>\<open>SERIES_LINE_PATTERN = re.compile(r"^(.+?)\s*-\s*ep:\s*([\d\.]+)$")\<close>, applied with
  \<^verbatim>\<open>match\<close>. \<open>match_tail\<close> matches \<^verbatim>\<open>\s*-\s*ep:\s*([\d\.]+)$\<close> against all of the text that is
  left and returns the second group: each \<^verbatim>\<open>\s*\<close> and the group itself are greedy and what
  follows them cannot start with a character they accept, so they take all they can;
  \<^verbatim>\<open>$\<close> is the end of the text or the place before a newline that ends it. The first group
  is lazy: \<open>lazy_group\<close> gives it one more character, never a newline, until the rest
  matches.
\<close>

definition is_numchar :: "char \<Rightarrow> bool" where
  "is_numchar c = (is_digit c \<or> c = CHR ''.'')"

definition match_tail :: "string \<Rightarrow> string option" where
  "match_tail s =
     (case dropWhile isspace s of
        [] \<Rightarrow> None
      | d # s2 \<Rightarrow>
          if d \<noteq> CHR ''-'' then None
          else
            (let s3 = dropWhile isspace s2 in
             if take 3 s3 \<noteq> ''ep:'' then None
             else
               (let s4 = dropWhile isspace (drop 3 s3);
                    g = takeWhile is_numchar s4;
                    rest = dropWhile is_numchar s4
                in if g \<noteq> [] \<and> (rest = [] \<or> rest = [newline]) then Some g else None)))"

fun lazy_group :: "string \<Rightarrow> string \<Rightarrow> (string \<times> string) option" where
  "lazy_group pre [] = None"
| "lazy_group pre (c # cs) =
     (if c = newline then None
      else (case match_tail cs of
          Some g \<Rightarrow> Some (pre @ [c], g)
        | None \<Rightarrow> lazy_group (pre @ [c]) cs))"

definition SERIES_LINE_PATTERN :: "string \<Rightarrow> (string \<times> string) option" where
  "SERIES_LINE_PATTERN line = lazy_group [] line"

text \<open>
  \<^verbatim>\<open>parse_series_data\<close> of the importer. The state of its loop is the dictionary built so far
  and \<^verbatim>\<open>current_category\<close>; \<open>parse_line\<close> is one round of the loop. \<open>header_name\<close> is
  \<^verbatim>\<open>line.split(':')[0].strip()\<close>. A \<^verbatim>\<open>ValueError\<close> of \<^verbatim>\<open>float\<close> is caught and the line skipped.
\<close>

definition header_name :: "string \<Rightarrow> string" where
  "header_name line = strip (hd (split_on CHR '':'' line))"

definition parse_line ::
  "(string \<Rightarrow> pyfloat option) \<Rightarrow> store \<times> string \<Rightarrow> string \<Rightarrow> store \<times> string" where
  "parse_line pyfloat st raw =
     (let line = strip raw; series_data = fst st; current_category = snd st in
      if line = [] \<or> contains ''-----'' line then st
      else if ends_with_colon line then
        (let category_name = header_name line in
         if category_name \<in> set [''Manga'', ''Manhwa'', ''Manhua'', ''Other'']
         then (series_data, category_name) else st)
      else (case SERIES_LINE_PATTERN line of
          None \<Rightarrow> st
        | Some (g1, g2) \<Rightarrow>
            (case pyfloat (strip g2) of
               None \<Rightarrow> st
             | Some chapter_number \<Rightarrow>
                 (AList.update (strip g1)
                    \<lparr>chapter = Some chapter_number, category = Some current_category\<rparr>
                    series_data,
                  current_category))))"

definition parse_lines ::
  "(string \<Rightarrow> pyfloat option) \<Rightarrow> store \<times> string \<Rightarrow> string list \<Rightarrow> store \<times> string" where
  "parse_lines pyfloat st ls = foldl (parse_line pyfloat) st ls"

definition parse_series_data :: "(string \<Rightarrow> pyfloat option) \<Rightarrow> string \<Rightarrow> store" where
  "parse_series_data pyfloat text_content =
     fst (parse_lines pyfloat ([], ''Other'') (split_on newline (strip text_content)))"

section \<open>The exporter: store to text\<close>

text \<open>
  \<^verbatim>\<open>format_data_to_text\<close> of \<^verbatim>\<open>export_series.py\<close>. \<open>output_lines\<close> is the list it appends to;
  the separator is the line of 44 dashes. \<open>grouped_data\<close> is the dictionary of dictionaries
  built by the first loop, read at a category of \<open>CATEGORIES\<close>: each record goes to its own
  category, or to \<^verbatim>\<open>Other\<close> when its category is missing or not one of \<open>CATEGORIES\<close>.
  \<^verbatim>\<open>sorted(..., key=lambda item: item[0].lower())\<close> is a stable sort on the lower-cased name;
  \<^verbatim>\<open>str\<close> values compare code point by code point. Each record gives the line
  \<^verbatim>\<open>f"{series}- ep: {chapter}"\<close>, with \<open>pystr\<close> for the conversion of the chapter, and three
  empty lines. At the end the empty lines at the end of the list are popped, then one
  separator if it is now the last line, and the lines are joined by newlines.
\<close>

definition SEPARATOR :: string where
  "SEPARATOR = ''--------------------------------------------''"

definition export_category :: "info \<Rightarrow> string" where
  "export_category i =
     (case category i of
        None \<Rightarrow> ''Other''
      | Some c \<Rightarrow> if c \<in> set CATEGORIES then c else ''Other'')"

definition grouped_data :: "store \<Rightarrow> string \<Rightarrow> store" where
  "grouped_data data =
     foldl (\<lambda>g (series_name, i).
              g(export_category i := AList.update series_name i (g (export_category i))))
       (\<lambda>cat. []) data"

definition export_chapter :: "info \<Rightarrow> pyfloat" where
  "export_chapter i = (case chapter i of None \<Rightarrow> Finite 0 | Some c \<Rightarrow> c)"

definition series_line :: "(pyfloat \<Rightarrow> string) \<Rightarrow> string \<times> info \<Rightarrow> string" where
  "series_line pystr item = fst item @ ''- ep: '' @ pystr (export_chapter (snd item))"

definition category_block :: "(pyfloat \<Rightarrow> string) \<Rightarrow> store \<Rightarrow> string \<Rightarrow> string list" where
  "category_block pystr series_in_category category_name =
     (if series_in_category = [] then []
      else [category_name @ '' :'', [], [], []]
        @ concat (map (\<lambda>item. [series_line pystr item, [], [], []])
            (sort_key (\<lambda>item. lower (fst item)) series_in_category))
        @ [SEPARATOR, [], [], []])"

definition output_lines :: "(pyfloat \<Rightarrow> string) \<Rightarrow> store \<Rightarrow> string list" where
  "output_lines pystr data =
     [''Lecture:'', [], [], [], SEPARATOR, [], []]
     @ concat (map (\<lambda>category_name.
          category_block pystr (grouped_data data category_name) category_name) CATEGORIES)"

definition pop_blank_lines :: "string list \<Rightarrow> string list" where
  "pop_blank_lines ls = rev (dropWhile (\<lambda>l. l = []) (rev ls))"

definition pop_last_separator :: "string list \<Rightarrow> string list" where
  "pop_last_separator ls = (if ls \<noteq> [] \<and> last ls = SEPARATOR then butlast ls else ls)"

definition format_data_to_text :: "(pyfloat \<Rightarrow> string) \<Rightarrow> store \<Rightarrow> string" where
  "format_data_to_text pystr data =
     (if data = []
      then ''Lecture:'' @ [newline, newline] @ SEPARATOR @ [newline, newline]
        @ ''[No series tracked]''
      else join [newline] (pop_last_separator (pop_blank_lines (output_lines pystr data))))"

text \<open>
  \<open>str_short\<close> is \<^verbatim>\<open>str(x)\<close> on the floats that Python prints with one digit after the point:
  the integers and the integers plus one half of magnitude below \<open>10\<^sup>1\<^sup>6\<close>, the negative
  zero, the infinities and NaN. The examples below use it on such values only.
\<close>

fun digits_of :: "nat \<Rightarrow> string" where
  "digits_of n =
     (if n < 10 then [char_of (48 + n)] else digits_of (n div 10) @ [char_of (48 + n mod 10)])"

definition str_short :: "pyfloat \<Rightarrow> string" where
  "str_short x =
     (case x of
        NaN \<Rightarrow> ''nan''
      | PosInf \<Rightarrow> ''inf''
      | NegInf \<Rightarrow> ''-inf''
      | NegZero \<Rightarrow> ''-0.0''
      | Finite r \<Rightarrow>
          (if r < 0 then ''-'' else [])
          @ digits_of (nat \<lfloor>\<bar>r\<bar>\<rfloor>) @ ''.'' @ digits_of (nat \<lfloor>10 * (\<bar>r\<bar> - of_int \<lfloor>\<bar>r\<bar>\<rfloor>)\<rfloor>))"

section \<open>Notions used in the statements\<close>

text \<open>
  The invariant of the data model: every chapter in the store is a non-negative real number
  (a record without the key \<^verbatim>\<open>chapter\<close> is read as chapter 0).
\<close>

definition chapters_nonneg :: "store \<Rightarrow> bool" where
  "chapters_nonneg S =
     list_all (\<lambda>(n, i). case chapter i of None \<Rightarrow> True | Some c \<Rightarrow> nonneg_real c) S"

text \<open>
  The two kinds of line that \<open>parse_line\<close> acts on, each the conjunction of the tests on its
  path through the loop body. \<open>is_category_header\<close>, on a stripped line: it is not skipped,
  it ends with a colon and the text before its first colon is, stripped, a category.
  \<open>series_entry\<close>: the name and chapter that a line stores, when it is not skipped, does
  not end with a colon, matches the pattern and \<^verbatim>\<open>float\<close> accepts its second group.
\<close>

definition is_category_header :: "string \<Rightarrow> bool" where
  "is_category_header line =
     (line \<noteq> [] \<and> \<not> contains ''-----'' line \<and> ends_with_colon line
      \<and> header_name line \<in> set CATEGORIES)"

definition series_entry ::
  "(string \<Rightarrow> pyfloat option) \<Rightarrow> string \<Rightarrow> (string \<times> pyfloat) option" where
  "series_entry pyfloat raw =
     (let line = strip raw in
      if line = [] \<or> contains ''-----'' line \<or> ends_with_colon line then None
      else (case SERIES_LINE_PATTERN line of
          None \<Rightarrow> None
        | Some (g1, g2) \<Rightarrow>
            (case pyfloat (strip g2) of None \<Rightarrow> None | Some ch \<Rightarrow> Some (strip g1, ch))))"

text \<open>
  The records that the text format carries. The name is not empty, has no whitespace at
  either end and no newline, and the line written for the record does not contain the
  separator token; the category is one of \<open>CATEGORIES\<close>; the chapter is there, \<open>pystr\<close>
  writes it with digits and points only and \<open>pyfloat\<close> reads that text back as the same
  float.
\<close>

definition round_trip_record ::
  "(string \<Rightarrow> pyfloat option) \<Rightarrow> (pyfloat \<Rightarrow> string) \<Rightarrow> string \<times> info \<Rightarrow> bool" where
  "round_trip_record pyfloat pystr item =
     (fst item \<noteq> [] \<and> \<not> isspace (hd (fst item)) \<and> \<not> isspace (last (fst item))
      \<and> newline \<notin> set (fst item)
      \<and> \<not> contains ''-----'' (series_line pystr item)
      \<and> (case category (snd item) of None \<Rightarrow> False | Some cat \<Rightarrow> cat \<in> set CATEGORIES)
      \<and> (case chapter (snd item) of
            None \<Rightarrow> False
          | Some c \<Rightarrow> pystr c \<noteq> [] \<and> list_all is_numchar (pystr c)
              \<and> pyfloat (pystr c) = Some c))"





text \<open>
  \<open>assign\<close> is the assignment \<^verbatim>\<open>series_data[name] = info\<close> for one item of a dictionary, and
  \<open>example_store\<close> a store of three records, used as an example.
\<close>

definition assign :: "store \<Rightarrow> string \<times> info \<Rightarrow> store" where
  "assign sd item = AList.update (fst item) (snd item) sd"

definition example_store :: store where
  "example_store =
     [(''foo'', \<lparr>chapter = Some (Finite 3), category = Some ''Manga''\<rparr>),
      (''Bar'', \<lparr>chapter = Some (Finite 1.5), category = Some ''Manhwa''\<rparr>),
      (''Abc'', \<lparr>chapter = Some (Finite 12), category = Some ''Manga''\<rparr>)]"

section \<open>Evaluation rules\<close>

lemmas text_eval = isspace_def is_digit_def strip_def ends_with_colon_def lower_def
  lower_char_def newline_def char_of_def bit_Suc_0_iff

lemmas float_exact_eval = float_exact_def parse_decimal_def scale10_def nat_of_digits_def
  digit_val_def Let_def text_eval

lemmas decode_eval = parse_series_data_def parse_lines_def parse_line_def
  SERIES_LINE_PATTERN_def match_tail_def is_numchar_def header_name_def
  series_entry_def is_category_header_def CATEGORIES_def

lemmas encode_eval = format_data_to_text_def output_lines_def category_block_def
  grouped_data_def export_category_def export_chapter_def series_line_def
  pop_blank_lines_def pop_last_separator_def SEPARATOR_def CATEGORIES_def str_short_def

lemma CATEGORIES_set: "set CATEGORIES = {''Manga'', ''Manhwa'', ''Manhua'', ''Other''}"
  by (auto simp add: CATEGORIES_def)


section \<open>Properties of the update engine\<close>



text \<open>
  C4. A category outside the enumeration is rejected first, whatever the chapter text is:
  the result is \<open>InvalidCategory\<close> and the store is the one passed in.
\<close>

theorem invalid_category_rejected:
  "cat \<notin> set CATEGORIES \<Longrightarrow>
     update_series_chapter pyfloat name chapter_number cat S = (Inl InvalidCategory, S)"
  by (simp add: update_series_chapter_def)

theorem invalid_category_rejected_witness:
  "''Webtoon'' \<notin> set CATEGORIES
   \<and> update_series_chapter float_exact ''X'' ''12.5'' ''Webtoon''
        [(''X'', \<lparr>chapter = Some (Finite 5), category = Some ''Manga''\<rparr>)]
      = (Inl InvalidCategory, [(''X'', \<lparr>chapter = Some (Finite 5), category = Some ''Manga''\<rparr>)])"
proof -
  have c: "''Webtoon'' \<notin> set CATEGORIES" by (simp add: CATEGORIES_def)
  from invalid_category_rejected [OF c] c show ?thesis by blast
qed

text \<open>
  C3, as stated: every chapter text that is negative or not a number makes the update fail
  with \<open>InvalidChapter\<close>. The category is checked before the chapter, so with a category
  outside the enumeration the failure is \<open>InvalidCategory\<close>, also for the chapter \<^verbatim>\<open>-1\<close>.
\<close>

theorem invalid_chapter_counterexample:
  "float_exact ''-1'' = Some (Finite (- 1)) \<and> float_lt (Finite (- 1)) (Finite 0)
   \<and> fst (update_series_chapter float_exact ''Y'' ''-1'' ''Webtoon'' []) \<noteq> Inl InvalidChapter"
  by (simp add: update_series_chapter_def CATEGORIES_def float_exact_eval)

text \<open>
  C3, amended. When \<^verbatim>\<open>float\<close> raises \<^verbatim>\<open>ValueError\<close> on the chapter text, or reads a value
  below zero, the update fails and the store is the one passed in; the failure is
  \<open>InvalidChapter\<close> when the category is one of the enumeration, and \<open>InvalidCategory\<close>
  otherwise.
\<close>

theorem invalid_chapter_rejected:
  assumes "pyfloat chapter_number = None
    \<or> (\<exists>ch. pyfloat chapter_number = Some ch \<and> float_lt ch (Finite 0))"
  shows "update_series_chapter pyfloat name chapter_number cat S
    = (Inl (if cat \<in> set CATEGORIES then InvalidChapter else InvalidCategory), S)"
  using assms by (auto simp add: update_series_chapter_def)

theorem invalid_chapter_rejected_witness:
  "(float_exact ''abc'' = None
      \<or> (\<exists>ch. float_exact ''abc'' = Some ch \<and> float_lt ch (Finite 0)))
   \<and> update_series_chapter float_exact ''Y'' ''abc'' ''Manga''
        [(''X'', \<lparr>chapter = Some (Finite 5), category = Some ''Manga''\<rparr>)]
      = (Inl InvalidChapter, [(''X'', \<lparr>chapter = Some (Finite 5), category = Some ''Manga''\<rparr>)])"
proof -
  have f: "float_exact ''abc'' = None
      \<or> (\<exists>ch. float_exact ''abc'' = Some ch \<and> float_lt ch (Finite 0))"
    by (simp add: float_exact_eval)
  have c: "''Manga'' \<in> set CATEGORIES" by (simp add: CATEGORIES_def)
  from invalid_chapter_rejected [where pyfloat = float_exact and chapter_number = "''abc''"
      and name = "''Y''" and cat = "''Manga''", OF f] c f
  show ?thesis by simp
qed

lemma stored_chapter_not_below_zero:
  assumes "update_series_chapter pyfloat name chapter_number cat S = (Inr out, S')"
  shows "\<exists>ch. map_of S' name = Some \<lparr>chapter = Some ch, category = Some cat\<rparr>
    \<and> \<not> float_lt ch (Finite 0)"
  using assms
  by (auto simp add: update_series_chapter_def Let_def update_conv'
      split: if_splits option.splits)

text \<open>
  C5. Every chapter in the store is to stay a non-negative real number across an update
  (\<open>chapters_nonneg\<close>). The update does not keep this: \<^verbatim>\<open>float('nan')\<close> is a NaN, the test
  \<^verbatim>\<open>chapter_number < 0\<close> is false for it, and the update succeeds and writes the NaN into the
  store. What the test does give is that a stored chapter is never below zero.
\<close>

theorem nan_chapter_is_stored:
  "chapters_nonneg []
   \<and> update_series_chapter float_exact ''X'' ''nan'' ''Manga'' []
      = (Inr Added, [(''X'', \<lparr>chapter = Some NaN, category = Some ''Manga''\<rparr>)])
   \<and> \<not> chapters_nonneg (snd (update_series_chapter float_exact ''X'' ''nan'' ''Manga'' []))"
  by (simp add: update_series_chapter_def CATEGORIES_def chapters_nonneg_def float_exact_eval)

section \<open>Properties of the importer\<close>

lemma split_on_not_Nil [simp]: "split_on sep s \<noteq> []"
  by (induction s) (auto split: list.splits)

lemma hd_split_on: "hd (split_on sep s) = takeWhile (\<lambda>c. c \<noteq> sep) s"
  by (induction s) (auto split: list.splits)

text \<open>One round of the loop, by the kind of its line.\<close>

lemma parse_line_cases:
  "parse_line pyfloat (sd, cur) raw =
     (if is_category_header (strip raw) then (sd, header_name (strip raw))
      else (case series_entry pyfloat raw of
          None \<Rightarrow> (sd, cur)
        | Some (n, ch) \<Rightarrow>
            (AList.update n \<lparr>chapter = Some ch, category = Some cur\<rparr> sd, cur)))"
  by (simp add: parse_line_def is_category_header_def series_entry_def CATEGORIES_def Let_def
      split: option.splits prod.splits)

lemma parse_lines_Nil [simp]: "parse_lines pyfloat st [] = st"
  by (simp add: parse_lines_def)

lemma parse_lines_Cons [simp]:
  "parse_lines pyfloat st (l # ls) = parse_lines pyfloat (parse_line pyfloat st l) ls"
  by (simp add: parse_lines_def)

lemma parse_lines_append [simp]:
  "parse_lines pyfloat st (xs @ ys) = parse_lines pyfloat (parse_lines pyfloat st xs) ys"
  by (simp add: parse_lines_def)


lemma parse_line_other_name:
  assumes "\<forall>c. series_entry pyfloat l \<noteq> Some (n, c)"
  shows "map_of (fst (parse_line pyfloat (sd, cur) l)) n = map_of sd n"
  using assms by (auto simp add: parse_line_cases update_conv' split: option.splits)

lemma parse_lines_other_names:
  assumes "\<forall>l\<in>set post. \<forall>c. series_entry pyfloat l \<noteq> Some (n, c)"
  shows "map_of (fst (parse_lines pyfloat st post)) n = map_of (fst st) n"
  using assms
proof (induction post arbitrary: st)
  case Nil
  then show ?case by simp
next
  case (Cons l post)
  obtain sd cur where st: "st = (sd, cur)" by (cases st)
  from Cons.prems have "map_of (fst (parse_line pyfloat (sd, cur) l)) n = map_of sd n"
    by (intro parse_line_other_name) simp
  with Cons st show ?case by simp
qed

lemma parse_line_ignored:
  assumes "\<not> is_category_header (strip raw)" and "series_entry pyfloat raw = None"
  shows "parse_line pyfloat st raw = st"
  using assms by (cases st) (simp add: parse_line_cases)

lemma skipped_not_header_nor_entry:
  assumes "strip raw = [] \<or> contains ''-----'' (strip raw)"
  shows "\<not> is_category_header (strip raw) \<and> series_entry pyfloat raw = None"
  using assms by (auto simp add: is_category_header_def series_entry_def)

lemma header_line_is_header:
  assumes "c \<in> set CATEGORIES"
  shows "strip (c @ '' :'') = c @ '' :'' \<and> is_category_header (c @ '' :'')
    \<and> header_name (c @ '' :'') = c"
  using assms
  by (auto simp add: CATEGORIES_def is_category_header_def header_name_def text_eval)

text \<open>
  C6, as stated: only a line of the exact form \<^verbatim>\<open><CategoryName> :\<close> starts a category block
  and every other line that ends with a colon is ignored. The line \<^verbatim>\<open>Manhwa:\<close> is not of
  that form (no space before the colon) and ends with a colon, yet it makes \<^verbatim>\<open>Manhwa\<close> the
  active category, and the series line after it is stored under \<^verbatim>\<open>Manhwa\<close>.
\<close>

theorem header_form_counterexample:
  "''Manhwa:'' \<notin> set (map (\<lambda>c. c @ '' :'') CATEGORIES)
   \<and> ends_with_colon (strip ''Manhwa:'')
   \<and> snd (parse_line float_exact ([], ''Other'') ''Manhwa:'') = ''Manhwa''
   \<and> parse_series_data float_exact (''Manhwa:'' @ [newline] @ ''Foo - ep: 3'')
      = [(''Foo'', \<lparr>chapter = Some (Finite 3), category = Some ''Manhwa''\<rparr>)]"
  by (simp add: decode_eval float_exact_eval)

text \<open>
  C6, amended. The active category after a line is the header name of the line when the
  stripped line is a category header (not blank, without the separator token, ending with a
  colon, and with one of the four category names, compared as they are written, as the
  stripped text before its first colon), and is unchanged otherwise. A line that ends with a
  colon never changes the store. The line \<^verbatim>\<open><CategoryName> :\<close> is such a header for each of the
  four categories.
\<close>

theorem category_switch:
  "snd (parse_line pyfloat (sd, cur) raw)
      = (if is_category_header (strip raw) then header_name (strip raw) else cur)
   \<and> (is_category_header (strip raw) \<longrightarrow>
        header_name (strip raw) = strip (takeWhile (\<lambda>c. c \<noteq> CHR '':'') (strip raw))
        \<and> header_name (strip raw) \<in> set CATEGORIES)
   \<and> (ends_with_colon (strip raw) \<longrightarrow> fst (parse_line pyfloat (sd, cur) raw) = sd)
   \<and> (\<forall>c\<in>set CATEGORIES. parse_line pyfloat (sd, cur) (c @ '' :'') = (sd, c))"
proof -
  have a: "snd (parse_line pyfloat (sd, cur) raw)
      = (if is_category_header (strip raw) then header_name (strip raw) else cur)"
    by (simp add: parse_line_cases split: option.splits)
  have b: "is_category_header (strip raw) \<longrightarrow>
        header_name (strip raw) = strip (takeWhile (\<lambda>c. c \<noteq> CHR '':'') (strip raw))
        \<and> header_name (strip raw) \<in> set CATEGORIES"
    by (simp add: is_category_header_def header_name_def hd_split_on)
  have c: "ends_with_colon (strip raw) \<longrightarrow> fst (parse_line pyfloat (sd, cur) raw) = sd"
    by (simp add: parse_line_cases series_entry_def)
  have d: "\<forall>c\<in>set CATEGORIES. parse_line pyfloat (sd, cur) (c @ '' :'') = (sd, c)"
    using header_line_is_header by (simp add: parse_line_cases)
  from a b c d show ?thesis by blast
qed

theorem category_switch_witness:
  "is_category_header (strip ''  Manhua : favourites:'')
   \<and> ends_with_colon (strip ''  Manhua : favourites:'')
   \<and> ''Manga'' \<in> set CATEGORIES
   \<and> parse_line float_exact ([], ''Other'') ''  Manhua : favourites:'' = ([], ''Manhua'')
   \<and> parse_line float_exact ([], ''Other'') ''Manga :'' = ([], ''Manga'')
   \<and> \<not> is_category_header (strip ''manga :'')
   \<and> parse_line float_exact ([], ''Other'') ''manga :'' = ([], ''Other'')"
proof -
  have h: "is_category_header (strip ''  Manhua : favourites:'')"
    and n: "header_name (strip ''  Manhua : favourites:'') = ''Manhua''"
    and e: "ends_with_colon (strip ''  Manhua : favourites:'')"
    and m: "''Manga'' \<in> set CATEGORIES"
    and l: "\<not> is_category_header (strip ''manga :'')"
    and e': "ends_with_colon (strip ''manga :'')"
    by (simp_all add: decode_eval text_eval)
  note w1 = category_switch [where pyfloat = float_exact and sd = "[]" and cur = "''Other''"
      and raw = "''  Manhua : favourites:''"]
  note w2 = category_switch [where pyfloat = float_exact and sd = "[]" and cur = "''Other''"
      and raw = "''manga :''"]
  from w1 h n e have 1: "parse_line float_exact ([], ''Other'') ''  Manhua : favourites:''
      = ([], ''Manhua'')"
    by (simp add: prod_eq_iff)
  from w1 have "\<forall>c\<in>set CATEGORIES.
      parse_line float_exact ([], ''Other'') (c @ '' :'') = ([], c)"
    by blast
  from bspec [OF this m]
  have 2: "parse_line float_exact ([], ''Other'') ''Manga :'' = ([], ''Manga'')"
    by simp
  from w2 l e' have 3: "parse_line float_exact ([], ''Other'') ''manga :'' = ([], ''Other'')"
    by (simp add: prod_eq_iff)
  from h e m l 1 2 3 show ?thesis by simp
qed












text \<open>
  C10. When several series lines carry the same name, the last one decides: if the lines of
  the text are \<open>pre\<close>, a series line for \<open>n\<close> and \<open>post\<close>, and no line of \<open>post\<close> is a series line
  for \<open>n\<close>, the store returned maps \<open>n\<close> to the chapter of that line and to the category that
  was active when the loop reached it.
\<close>

theorem last_series_line_wins:
  assumes "split_on newline (strip text_content) = pre @ raw # post"
    and "series_entry pyfloat raw = Some (n, ch)"
    and "\<forall>l\<in>set post. \<forall>c. series_entry pyfloat l \<noteq> Some (n, c)"
  shows "map_of (parse_series_data pyfloat text_content) n
    = Some \<lparr>chapter = Some ch,
            category = Some (snd (parse_lines pyfloat ([], ''Other'') pre))\<rparr>"
proof -
  obtain sd cur where st: "parse_lines pyfloat ([], ''Other'') pre = (sd, cur)"
    by (cases "parse_lines pyfloat ([], ''Other'') pre")
  from assms(2) have nh: "\<not> is_category_header (strip raw)"
    by (auto simp add: series_entry_def is_category_header_def Let_def split: if_splits)
  with assms(2) have step: "parse_line pyfloat (sd, cur) raw
      = (AList.update n \<lparr>chapter = Some ch, category = Some cur\<rparr> sd, cur)"
    by (simp add: parse_line_cases)
  have "map_of (parse_series_data pyfloat text_content) n
      = map_of (fst (parse_lines pyfloat (parse_line pyfloat (sd, cur) raw) post)) n"
    by (simp add: parse_series_data_def assms(1) st)
  also have "\<dots> = map_of (fst (parse_line pyfloat (sd, cur) raw)) n"
    by (rule parse_lines_other_names [OF assms(3)])
  also have "\<dots> = Some \<lparr>chapter = Some ch, category = Some cur\<rparr>"
    by (simp add: step update_conv')
  finally show ?thesis by (simp add: st)
qed

theorem last_series_line_wins_witness:
  "split_on newline (strip (''Manga :'' @ [newline] @ ''Foo - ep: 3'' @ [newline]
        @ ''Manhwa :'' @ [newline] @ ''Foo - ep: 4.5'' @ [newline] @ ''Bar - ep: 7''))
      = [''Manga :'', ''Foo - ep: 3'', ''Manhwa :''] @ ''Foo - ep: 4.5'' # [''Bar - ep: 7'']
   \<and> series_entry float_exact ''Foo - ep: 4.5'' = Some (''Foo'', Finite 4.5)
   \<and> series_entry float_exact ''Bar - ep: 7'' = Some (''Bar'', Finite 7)
   \<and> map_of (parse_series_data float_exact (''Manga :'' @ [newline] @ ''Foo - ep: 3''
        @ [newline] @ ''Manhwa :'' @ [newline] @ ''Foo - ep: 4.5'' @ [newline]
        @ ''Bar - ep: 7'')) ''Foo''
      = Some \<lparr>chapter = Some (Finite 4.5), category = Some ''Manhwa''\<rparr>"
proof -
  have s: "split_on newline (strip (''Manga :'' @ [newline] @ ''Foo - ep: 3'' @ [newline]
        @ ''Manhwa :'' @ [newline] @ ''Foo - ep: 4.5'' @ [newline] @ ''Bar - ep: 7''))
      = [''Manga :'', ''Foo - ep: 3'', ''Manhwa :''] @ ''Foo - ep: 4.5'' # [''Bar - ep: 7'']"
    by (simp add: text_eval)
  have e: "series_entry float_exact ''Foo - ep: 4.5'' = Some (''Foo'', Finite 4.5)"
    by (simp add: decode_eval float_exact_eval)
  have p: "\<forall>l\<in>set [''Bar - ep: 7'']. \<forall>c. series_entry float_exact l \<noteq> Some (''Foo'', c)"
    by (simp add: decode_eval float_exact_eval)
  have c: "snd (parse_lines float_exact ([], ''Other'')
      [''Manga :'', ''Foo - ep: 3'', ''Manhwa :'']) = ''Manhwa''"
    by (simp add: decode_eval float_exact_eval)
  have b: "series_entry float_exact ''Bar - ep: 7'' = Some (''Bar'', Finite 7)"
    by (simp add: decode_eval float_exact_eval)
  from last_series_line_wins [where pyfloat = float_exact, OF s e p] s e b c
  show ?thesis by simp
qed

section \<open>Properties of the exporter\<close>

text \<open>
  The parts of the layout: the blocks come in the order of \<open>CATEGORIES\<close>, a category without
  records gives no line at all, a category with records gives its header, its records
  sorted by lower-cased name, and a separator.
\<close>

lemma output_lines_order:
  "output_lines pystr data =
     [''Lecture:'', [], [], [], SEPARATOR, [], []]
     @ category_block pystr (grouped_data data ''Manga'') ''Manga''
     @ category_block pystr (grouped_data data ''Manhwa'') ''Manhwa''
     @ category_block pystr (grouped_data data ''Manhua'') ''Manhua''
     @ category_block pystr (grouped_data data ''Other'') ''Other''"
  by (simp add: output_lines_def CATEGORIES_def)

lemma category_block_empty: "category_block pystr [] c = []"
  by (simp add: category_block_def)

lemma category_block_sorted:
  "g \<noteq> [] \<Longrightarrow>
     category_block pystr g c =
       [c @ '' :'', [], [], []]
       @ concat (map (\<lambda>item. [series_line pystr item, [], [], []])
           (sort_key (\<lambda>item. lower (fst item)) g))
       @ [SEPARATOR, [], [], []]
     \<and> sorted (map (\<lambda>item. lower (fst item)) (sort_key (\<lambda>item. lower (fst item)) g))"
  by (simp add: category_block_def)

text \<open>
  C8. The exporter is to trim every separator and blank line at the end of the document.
  The text written for a store with one record: after the empty lines at the end and the
  last separator are popped, the three empty lines behind the last record are the end of
  the list, and the text ends with three newlines.
\<close>

theorem export_ends_with_blank_lines:
  "format_data_to_text str_short
     [(''A'', \<lparr>chapter = Some (Finite 1), category = Some ''Manga''\<rparr>)]
   = ''Lecture:'' @ [newline, newline, newline, newline] @ SEPARATOR
     @ [newline, newline, newline] @ ''Manga :'' @ [newline, newline, newline, newline]
     @ ''A- ep: 1.0'' @ [newline, newline, newline]"
  by (simp add: encode_eval text_eval)

section \<open>From the store to the text and back\<close>

subsection \<open>The pattern on a line written by the exporter\<close>

lemma numchar_not_space: "is_numchar c \<Longrightarrow> \<not> isspace c"
  by (auto simp add: is_numchar_def is_digit_def isspace_def Let_def)

lemma numchar_not_dash: "is_numchar c \<Longrightarrow> c \<noteq> CHR ''-''"
  by (auto simp add: is_numchar_def is_digit_def Let_def)

lemma numchar_not_colon: "is_numchar c \<Longrightarrow> c \<noteq> CHR '':''"
  by (auto simp add: is_numchar_def is_digit_def Let_def)

lemma space_not_dash: "isspace c \<Longrightarrow> c \<noteq> CHR ''-''"
  by (auto simp add: isspace_def)

lemma dropWhile_space_numchars:
  "list_all is_numchar t \<Longrightarrow> dropWhile isspace t = t"
  by (cases t) (simp_all add: numchar_not_space)

lemma strip_id:
  assumes "s \<noteq> []" and "\<not> isspace (hd s)" and "\<not> isspace (last s)"
  shows "strip s = s"
proof -
  from assms(1,2) have a: "dropWhile isspace s = s" by (cases s) simp_all
  from assms(1,3) have "dropWhile isspace (rev s) = rev s"
    by (cases s rule: rev_cases) simp_all
  with a show ?thesis by (simp add: strip_def)
qed

lemma match_tail_entry:
  assumes "t \<noteq> []" and "list_all is_numchar t"
  shows "match_tail (''- ep: '' @ t) = Some t"
proof -
  from assms(2) have tw: "takeWhile is_numchar t = t" and dw: "dropWhile is_numchar t = []"
    by (simp_all add: list_all_iff)
  from assms show ?thesis
    by (simp add: match_tail_def isspace_def dropWhile_space_numchars tw dw list_all_iff)
qed

lemma match_tail_Some_D:
  assumes "match_tail x = Some g"
  shows "\<exists>w r. x = w @ CHR ''-'' # r \<and> (\<forall>c\<in>set w. isspace c) \<and> CHR ''-'' \<notin> set r"
proof -
  define w where "w = takeWhile isspace x"
  from assms obtain d s2 where d: "dropWhile isspace x = d # s2"
    by (cases "dropWhile isspace x") (simp_all add: match_tail_def)
  define s3 where "s3 = dropWhile isspace s2"
  define s4 where "s4 = dropWhile isspace (drop 3 s3)"
  from assms d have dd: "d = CHR ''-''"
    by (simp add: match_tail_def split: if_splits)
  from assms d dd have t3: "take 3 s3 = ''ep:''"
    by (simp add: match_tail_def s3_def Let_def split: if_splits)
  from assms d dd t3 have rest: "dropWhile is_numchar s4 = [] \<or> dropWhile is_numchar s4 = [newline]"
    by (simp add: match_tail_def s3_def s4_def Let_def split: if_splits)
  have x: "x = w @ CHR ''-'' # s2"
    using d dd by (metis takeWhile_dropWhile_id w_def)
  have w: "\<forall>c\<in>set w. isspace c"
    by (auto simp add: w_def dest: set_takeWhileD)
  have p1: "s2 = takeWhile isspace s2 @ s3" by (simp add: s3_def)
  have p2: "s3 = ''ep:'' @ drop 3 s3" using t3 by (metis append_take_drop_id)
  have p3: "drop 3 s3 = takeWhile isspace (drop 3 s3) @ s4" by (simp add: s4_def)
  have p4: "s4 = takeWhile is_numchar s4 @ dropWhile is_numchar s4" by simp
  have n1: "CHR ''-'' \<notin> set (takeWhile isspace s2)"
    by (auto dest: set_takeWhileD simp add: isspace_def)
  have n3: "CHR ''-'' \<notin> set (takeWhile isspace (drop 3 s3))"
    by (auto dest: set_takeWhileD simp add: isspace_def)
  have n4: "CHR ''-'' \<notin> set (takeWhile is_numchar s4)"
    by (auto dest: set_takeWhileD simp add: is_numchar_def is_digit_def)
  have n5: "CHR ''-'' \<notin> set (dropWhile is_numchar s4)"
    using rest
  proof
    assume e: "dropWhile is_numchar s4 = []"
    show ?thesis unfolding e by simp
  next
    assume e: "dropWhile is_numchar s4 = [newline]"
    show ?thesis unfolding e by (simp add: newline_def)
  qed
  have "set s4 = set (takeWhile is_numchar s4) \<union> set (dropWhile is_numchar s4)"
    using arg_cong [OF p4, of set] by (simp only: set_append)
  with n4 n5 have m4: "CHR ''-'' \<notin> set s4" by blast
  have "set (drop 3 s3) = set (takeWhile isspace (drop 3 s3)) \<union> set s4"
    using arg_cong [OF p3, of set] by (simp only: set_append)
  with n3 m4 have m3: "CHR ''-'' \<notin> set (drop 3 s3)" by blast
  have "set s3 = set ''ep:'' \<union> set (drop 3 s3)"
    using arg_cong [OF p2, of set] by (simp only: set_append)
  moreover have "CHR ''-'' \<notin> set ''ep:''" by simp
  ultimately have m2: "CHR ''-'' \<notin> set s3" using m3 by blast
  have "set s2 = set (takeWhile isspace s2) \<union> set s3"
    using arg_cong [OF p1, of set] by (simp only: set_append)
  with n1 m2 have "CHR ''-'' \<notin> set s2" by blast
  with x w show ?thesis by blast
qed

lemma last_occurrence_unique:
  assumes "a @ c # b = a' @ c # b'" and "c \<notin> set b" and "c \<notin> set b'"
  shows "a = a'"
proof -
  from assms(1) have "rev b @ c # rev a = rev b' @ c # rev a'"
    by (metis rev.simps(2) rev_append append_assoc append_Cons append_Nil)
  then have "takeWhile (\<lambda>y. y \<noteq> c) (rev b @ c # rev a)
      = takeWhile (\<lambda>y. y \<noteq> c) (rev b' @ c # rev a')"
    by simp
  moreover have "takeWhile (\<lambda>y. y \<noteq> c) (rev b @ c # rev a) = rev b"
    using assms(2) by (subst takeWhile_append2) auto
  moreover have "takeWhile (\<lambda>y. y \<noteq> c) (rev b' @ c # rev a') = rev b'"
    using assms(3) by (subst takeWhile_append2) auto
  ultimately have "b = b'" by simp
  with assms(1) show ?thesis by simp
qed

lemma match_tail_None:
  assumes "s \<noteq> []" and "\<not> isspace (last s)" and "list_all is_numchar t"
  shows "match_tail (s @ ''- ep: '' @ t) = None"
proof (cases "match_tail (s @ ''- ep: '' @ t)")
  case None
  then show ?thesis .
next
  case (Some g)
  from match_tail_Some_D [OF Some] obtain w r
    where x: "s @ ''- ep: '' @ t = w @ CHR ''-'' # r"
      and w: "\<forall>c\<in>set w. isspace c" and r: "CHR ''-'' \<notin> set r"
    by blast
  have nd: "CHR ''-'' \<notin> set ('' ep: '' @ t)"
    using assms(3) by (auto simp add: list_all_iff dest: numchar_not_dash)
  from x have eq: "s @ CHR ''-'' # ('' ep: '' @ t) = w @ CHR ''-'' # r" by simp
  from last_occurrence_unique [OF eq nd r] have "s = w" .
  with w assms(1) have "isspace (last s)" by simp
  with assms(2) show ?thesis by simp
qed

lemma lazy_group_entry:
  assumes "s \<noteq> []" and "\<not> isspace (last s)" and "newline \<notin> set s"
    and "t \<noteq> []" and "list_all is_numchar t"
  shows "lazy_group pre (s @ ''- ep: '' @ t) = Some (pre @ s, t)"
  using assms(1-3)
proof (induction s arbitrary: pre)
  case Nil
  then show ?case by simp
next
  case (Cons c cs)
  show ?case
  proof (cases "cs = []")
    case True
    with Cons.prems assms(4,5) match_tail_entry [of t] show ?thesis by simp
  next
    case False
    with Cons.prems have "match_tail (cs @ ''- ep: '' @ t) = None"
      by (intro match_tail_None assms(5)) simp_all
    moreover from False Cons have "lazy_group (pre @ [c]) (cs @ ''- ep: '' @ t)
        = Some ((pre @ [c]) @ cs, t)"
      by simp
    ultimately show ?thesis using Cons.prems by auto
  qed
qed

subsection \<open>Lines and text\<close>

lemma split_on_snoc_sep: "split_on sep (xs @ [sep]) = split_on sep xs @ [[]]"
  by (induction xs) (auto split: list.splits)

lemma split_on_snoc_other:
  "c \<noteq> sep \<Longrightarrow>
     split_on sep (xs @ [c]) = butlast (split_on sep xs) @ [last (split_on sep xs) @ [c]]"
  by (induction xs) (auto split: list.splits)

lemma split_on_no_sep: "sep \<notin> set l \<Longrightarrow> split_on sep l = [l]"
  by (induction l) auto

lemma split_on_append_sep: "sep \<notin> set l \<Longrightarrow> split_on sep (l @ sep # r) = l # split_on sep r"
  by (induction l) auto

lemma split_on_join:
  assumes "\<forall>l\<in>set ls. newline \<notin> set l" and "ls \<noteq> []"
  shows "split_on newline (join [newline] ls) = ls"
  using assms
proof (induction "[newline]" ls rule: join.induct)
  case 1
  then show ?case by simp
next
  case (2 l)
  then show ?case by (simp add: split_on_no_sep)
next
  case (3 l v va)
  then show ?case by (simp add: split_on_append_sep)
qed

lemma strip_Nil [simp]: "strip [] = []"
  by (simp add: strip_def)

lemma strip_Cons_space: "isspace c \<Longrightarrow> strip (c # l) = strip l"
  by (simp add: strip_def)

lemma strip_snoc_space:
  assumes "isspace c"
  shows "strip (l @ [c]) = strip l"
proof (cases "\<forall>x\<in>set l. isspace x")
  case True
  have "dropWhile isspace (l @ [c]) = []"
    by (rule dropWhile_eq_Nil_conv [THEN iffD2]) (use True assms in auto)
  moreover have "dropWhile isspace l = []"
    by (rule dropWhile_eq_Nil_conv [THEN iffD2]) (use True in auto)
  ultimately show ?thesis by (simp only: strip_def rev.simps dropWhile.simps)
next
  case False
  then obtain x where "x \<in> set l" and "\<not> isspace x" by blast
  then have "dropWhile isspace (l @ [c]) = dropWhile isspace l @ [c]"
    by (rule dropWhile_append1)
  with assms show ?thesis by (simp add: strip_def)
qed

lemma parse_line_strip_eq:
  "strip a = strip b \<Longrightarrow> parse_line pyfloat st a = parse_line pyfloat st b"
  by (simp add: parse_line_def)

lemma parse_line_blank [simp]: "parse_line pyfloat st [] = st"
  by (simp add: parse_line_def)

lemma parse_lines_lstrip:
  "parse_lines pyfloat st (split_on newline (dropWhile isspace t))
     = parse_lines pyfloat st (split_on newline t)"
proof (induction t)
  case Nil
  then show ?case by simp
next
  case (Cons c cs)
  show ?case
  proof (cases "isspace c")
    case False
    then show ?thesis by simp
  next
    case True
    show ?thesis
    proof (cases "c = newline")
      case True
      with \<open>isspace c\<close> Cons show ?thesis by simp
    next
      case False
      obtain l ls where s: "split_on newline cs = l # ls"
        by (cases "split_on newline cs") simp_all
      have "parse_line pyfloat st (c # l) = parse_line pyfloat st l"
        using \<open>isspace c\<close> by (intro parse_line_strip_eq) (simp add: strip_Cons_space)
      with False \<open>isspace c\<close> Cons s show ?thesis by simp
    qed
  qed
qed

lemma parse_lines_snoc_space:
  assumes "isspace c"
  shows "parse_lines pyfloat st (split_on newline (xs @ [c]))
    = parse_lines pyfloat st (split_on newline xs)"
proof (cases "c = newline")
  case True
  then show ?thesis by (simp add: split_on_snoc_sep)
next
  case False
  let ?S = "split_on newline xs"
  have "parse_lines pyfloat st (split_on newline (xs @ [c]))
      = parse_line pyfloat (parse_lines pyfloat st (butlast ?S)) (last ?S @ [c])"
    using False by (simp add: split_on_snoc_other)
  also have "\<dots> = parse_line pyfloat (parse_lines pyfloat st (butlast ?S)) (last ?S)"
    using assms by (intro parse_line_strip_eq) (simp add: strip_snoc_space)
  also have "\<dots> = parse_lines pyfloat st (butlast ?S @ [last ?S])"
    by (simp only: parse_lines_append parse_lines_Cons parse_lines_Nil)
  also have "\<dots> = parse_lines pyfloat st ?S"
    by (simp del: parse_lines_append)
  finally show ?thesis .
qed

lemma parse_lines_rstrip:
  "parse_lines pyfloat st (split_on newline (rev (dropWhile isspace (rev t))))
     = parse_lines pyfloat st (split_on newline t)"
proof (induction t rule: rev_induct)
  case Nil
  then show ?case by simp
next
  case (snoc c xs)
  then show ?case by (cases "isspace c") (simp_all add: parse_lines_snoc_space)
qed

lemma parse_lines_strip:
  "parse_lines pyfloat st (split_on newline (strip t))
     = parse_lines pyfloat st (split_on newline t)"
  unfolding strip_def by (simp only: parse_lines_rstrip parse_lines_lstrip)

lemma parse_lines_split_join:
  assumes "\<forall>l\<in>set ls. newline \<notin> set l"
  shows "parse_lines pyfloat st (split_on newline (join [newline] ls)) = parse_lines pyfloat st ls"
proof (cases "ls = []")
  case True
  then show ?thesis by simp
next
  case False
  with assms show ?thesis by (simp add: split_on_join)
qed

lemma parse_lines_ignored:
  assumes "\<forall>l\<in>set ls. \<not> is_category_header (strip l) \<and> series_entry pyfloat l = None"
  shows "parse_lines pyfloat st ls = st"
  using assms by (induction ls arbitrary: st) (simp_all add: parse_line_ignored)

lemma blank_ignored: "\<not> is_category_header [] \<and> series_entry pyfloat [] = None"
  by (simp add: is_category_header_def series_entry_def)

lemma separator_ignored:
  "\<not> is_category_header (strip SEPARATOR) \<and> series_entry pyfloat SEPARATOR = None"
  by (rule skipped_not_header_nor_entry) (simp add: SEPARATOR_def text_eval)

lemma parse_lines_pop_blank:
  "parse_lines pyfloat st (pop_blank_lines ls) = parse_lines pyfloat st ls"
proof -
  have "ls = pop_blank_lines ls @ rev (takeWhile (\<lambda>l. l = []) (rev ls))"
    unfolding pop_blank_lines_def
    by (metis rev_append rev_rev_ident takeWhile_dropWhile_id)
  moreover have "parse_lines pyfloat st'
      (rev (takeWhile (\<lambda>l. l = []) (rev ls))) = st'" for st'
  proof (rule parse_lines_ignored, intro ballI)
    fix l
    assume "l \<in> set (rev (takeWhile (\<lambda>l. l = []) (rev ls)))"
    then have "l = []" by (auto dest: set_takeWhileD)
    then show "\<not> is_category_header (strip l) \<and> series_entry pyfloat l = None"
      by (simp add: blank_ignored)
  qed
  ultimately show ?thesis by (metis parse_lines_append)
qed

lemma parse_lines_pop_separator:
  "parse_lines pyfloat st (pop_last_separator ls) = parse_lines pyfloat st ls"
proof (cases "ls \<noteq> [] \<and> last ls = SEPARATOR")
  case False
  then show ?thesis by (auto simp add: pop_last_separator_def)
next
  case True
  then have "ls = butlast ls @ [SEPARATOR]" by (metis append_butlast_last_id)
  then have "parse_lines pyfloat st ls
      = parse_line pyfloat (parse_lines pyfloat st (butlast ls)) SEPARATOR"
    by (metis parse_lines_append parse_lines_Cons parse_lines_Nil)
  also have "\<dots> = parse_lines pyfloat st (butlast ls)"
    using separator_ignored by (simp add: parse_line_ignored)
  finally show ?thesis using True by (simp add: pop_last_separator_def)
qed

lemma set_pop: "set (pop_last_separator (pop_blank_lines ls)) \<subseteq> set ls"
proof -
  have "set (pop_blank_lines ls) \<subseteq> set ls"
    by (auto simp add: pop_blank_lines_def dest: set_dropWhileD)
  moreover have "set (pop_last_separator xs) \<subseteq> set xs" for xs
    by (auto simp add: pop_last_separator_def dest: in_set_butlastD)
  ultimately show ?thesis by blast
qed

lemma decode_of_lines:
  assumes "\<forall>l\<in>set ls. newline \<notin> set l"
  shows "parse_series_data pyfloat (join [newline] (pop_last_separator (pop_blank_lines ls)))
    = fst (parse_lines pyfloat ([], ''Other'') ls)"
proof -
  from assms set_pop [of ls]
  have "\<forall>l\<in>set (pop_last_separator (pop_blank_lines ls)). newline \<notin> set l"
    by blast
  then show ?thesis
    by (simp add: parse_series_data_def parse_lines_strip parse_lines_split_join
        parse_lines_pop_separator parse_lines_pop_blank)
qed

subsection \<open>Blocks\<close>

lemma update_fresh: "k \<notin> fst ` set al \<Longrightarrow> AList.update k v al = al @ [(k, v)]"
  by (induction al) auto

lemma grouped_data_snoc:
  "grouped_data (xs @ [(n, i)]) =
     (grouped_data xs)(export_category i :=
        AList.update n i (grouped_data xs (export_category i)))"
  by (simp add: grouped_data_def)

lemma grouped_data_filter:
  assumes "distinct (map fst data)"
  shows "grouped_data data c = filter (\<lambda>item. export_category (snd item) = c) data"
  using assms
proof (induction data rule: rev_induct)
  case Nil
  then show ?case by (simp add: grouped_data_def)
next
  case (snoc x xs)
  obtain n i where x: "x = (n, i)" by (cases x)
  from snoc.prems x have d: "distinct (map fst xs)" and n: "n \<notin> fst ` set xs"
    by simp_all
  from n have "n \<notin> fst ` set (filter (\<lambda>item. export_category (snd item) = c) xs)"
    by auto
  then have "AList.update n i (filter (\<lambda>item. export_category (snd item) = c) xs)
      = filter (\<lambda>item. export_category (snd item) = c) xs @ [(n, i)]"
    by (rule update_fresh)
  with snoc.IH [OF d] x show ?case
    by (auto simp add: grouped_data_snoc)
qed

lemma export_category_valid: "export_category i \<in> set CATEGORIES"
  by (simp add: export_category_def CATEGORIES_def split: option.splits)

lemma export_category_id:
  "category i = Some c \<Longrightarrow> c \<in> set CATEGORIES \<Longrightarrow> export_category i = c"
  by (simp add: export_category_def)

lemma series_line_entry:
  assumes "round_trip_record pyfloat pystr item"
  shows "\<exists>ch. chapter (snd item) = Some ch
    \<and> series_entry pyfloat (series_line pystr item) = Some (fst item, ch)"
proof -
  obtain n i where item: "item = (n, i)" by (cases item)
  from assms item obtain ch where ch: "chapter i = Some ch"
    and t: "pystr ch \<noteq> []" "list_all is_numchar (pystr ch)" "pyfloat (pystr ch) = Some ch"
    by (auto simp add: round_trip_record_def split: option.splits)
  from assms item have n: "n \<noteq> []" "\<not> isspace (hd n)" "\<not> isspace (last n)"
    "newline \<notin> set n"
    and ns: "\<not> contains ''-----'' (series_line pystr item)"
    by (simp_all add: round_trip_record_def)
  let ?line = "n @ ''- ep: '' @ pystr ch"
  have line: "series_line pystr item = ?line"
    by (simp add: series_line_def item export_chapter_def ch)
  have lt: "last ?line = last (pystr ch)" using t(1) by simp
  from t have tl: "is_numchar (last (pystr ch))"
    by (simp add: list_all_iff)
  have "strip ?line = ?line"
    using n lt tl by (intro strip_id) (simp_all add: numchar_not_space)
  moreover have "\<not> ends_with_colon ?line"
    using lt tl by (simp add: ends_with_colon_def numchar_not_colon)
  moreover have "SERIES_LINE_PATTERN ?line = Some (n, pystr ch)"
    using lazy_group_entry [OF n(1) n(3) n(4) t(1) t(2), of "[]"]
    by (simp add: SERIES_LINE_PATTERN_def)
  moreover have "strip n = n" using n by (intro strip_id)
  moreover have "strip (pystr ch) = pystr ch"
  proof (rule strip_id [OF t(1)])
    from t(1,2) show "\<not> isspace (hd (pystr ch))"
      by (cases "pystr ch") (simp_all add: numchar_not_space)
    from tl show "\<not> isspace (last (pystr ch))" by (rule numchar_not_space)
  qed
  ultimately have "series_entry pyfloat ?line = Some (n, ch)"
    using ns n(1) t(3) unfolding line by (simp add: series_entry_def)
  with ch line item show ?thesis by simp
qed

lemma parse_lines_entries:
  assumes "\<forall>item\<in>set items. round_trip_record pyfloat pystr item
      \<and> category (snd item) = Some c"
  shows "parse_lines pyfloat (sd, c)
      (concat (map (\<lambda>item. [series_line pystr item, [], [], []]) items))
    = (foldl assign sd items, c)"
  using assms
proof (induction items arbitrary: sd)
  case Nil
  then show ?case by simp
next
  case (Cons item items)
  from Cons.prems have rt: "round_trip_record pyfloat pystr item"
    and cat: "category (snd item) = Some c"
    by simp_all
  from series_line_entry [OF rt] obtain ch where ch: "chapter (snd item) = Some ch"
    and e: "series_entry pyfloat (series_line pystr item) = Some (fst item, ch)"
    by blast
  from e have nh: "\<not> is_category_header (strip (series_line pystr item))"
    by (auto simp add: series_entry_def is_category_header_def Let_def split: if_splits)
  from ch cat have i: "snd item = \<lparr>chapter = Some ch, category = Some c\<rparr>"
    by (cases "snd item") simp
  have "parse_line pyfloat (sd, c) (series_line pystr item) = (assign sd item, c)"
    using e nh i by (simp add: parse_line_cases assign_def)
  with Cons show ?case by simp
qed

lemma parse_lines_block:
  assumes "c \<in> set CATEGORIES"
    and "\<forall>item\<in>set g. round_trip_record pyfloat pystr item \<and> category (snd item) = Some c"
  shows "fst (parse_lines pyfloat st (category_block pystr g c))
    = foldl assign (fst st) (sort_key (\<lambda>item. lower (fst item)) g)"
proof (cases "g = []")
  case True
  then show ?thesis by (simp add: category_block_def)
next
  case False
  obtain sd cur where st: "st = (sd, cur)" by (cases st)
  from header_line_is_header [OF assms(1)]
  have h: "parse_line pyfloat (sd, cur) (c @ '' :'') = (sd, c)"
    by (simp add: parse_line_cases)
  have e: "parse_lines pyfloat (sd, c)
      (concat (map (\<lambda>item. [series_line pystr item, [], [], []])
         (sort_key (\<lambda>item. lower (fst item)) g)))
    = (foldl assign sd (sort_key (\<lambda>item. lower (fst item)) g), c)"
    using assms(2) by (intro parse_lines_entries) simp
  have s: "parse_line pyfloat st' SEPARATOR = st'" for st'
    using separator_ignored by (simp add: parse_line_ignored)
  from False show ?thesis
    by (simp add: category_block_def st h e s)
qed

lemma parse_lines_blocks:
  assumes "set cs \<subseteq> set CATEGORIES"
    and "\<forall>c\<in>set cs. \<forall>item\<in>set (G c).
        round_trip_record pyfloat pystr item \<and> category (snd item) = Some c"
  shows "fst (parse_lines pyfloat st (concat (map (\<lambda>c. category_block pystr (G c) c) cs)))
    = foldl assign (fst st) (concat (map (\<lambda>c. sort_key (\<lambda>item. lower (fst item)) (G c)) cs))"
  using assms
proof (induction cs arbitrary: st)
  case Nil
  then show ?case by simp
next
  case (Cons c cs)
  from Cons.prems have "fst (parse_lines pyfloat st (category_block pystr (G c) c))
      = foldl assign (fst st) (sort_key (\<lambda>item. lower (fst item)) (G c))"
    by (intro parse_lines_block) simp_all
  with Cons show ?case by simp
qed

lemma foldl_assign_fresh:
  "distinct (map fst (sd @ E)) \<Longrightarrow> foldl assign sd E = sd @ E"
proof (induction E arbitrary: sd)
  case Nil
  then show ?case by simp
next
  case (Cons x E)
  from Cons.prems have "fst x \<notin> fst ` set sd" by auto
  then have "assign sd x = sd @ [x]"
    by (simp add: assign_def update_fresh)
  with Cons show ?case by simp
qed

lemma sum_filter_mset_categories:
  "distinct cs \<Longrightarrow>
     (\<Sum>c\<leftarrow>cs. filter_mset (\<lambda>x. f x = c) M) = filter_mset (\<lambda>x. f x \<in> set cs) M"
  by (induction cs) (auto simp add: multiset_eq_iff)

lemma mset_regrouped:
  "mset (concat (map (\<lambda>c. sort_key k (filter (\<lambda>item. export_category (snd item) = c) S))
      CATEGORIES)) = mset S"
proof -
  have d: "distinct CATEGORIES" by (simp add: CATEGORIES_def)
  have "mset (concat (map (\<lambda>c. sort_key k (filter (\<lambda>item. export_category (snd item) = c) S))
      CATEGORIES))
    = (\<Sum>c\<leftarrow>CATEGORIES. filter_mset (\<lambda>item. export_category (snd item) = c) (mset S))"
    by (simp add: mset_concat comp_def)
  also have "\<dots> = filter_mset (\<lambda>item. export_category (snd item) \<in> set CATEGORIES) (mset S)"
    by (rule sum_filter_mset_categories [OF d])
  also have "\<dots> = mset S"
    by (simp add: export_category_valid)
  finally show ?thesis .
qed

lemma numchar_not_newline: "is_numchar c \<Longrightarrow> c \<noteq> newline"
  by (auto simp add: is_numchar_def is_digit_def newline_def Let_def)

lemma series_line_no_newline:
  assumes "round_trip_record pyfloat pystr item"
  shows "newline \<notin> set (series_line pystr item)"
proof -
  from assms obtain ch where ch: "chapter (snd item) = Some ch"
    and t: "list_all is_numchar (pystr ch)"
    by (auto simp add: round_trip_record_def split: option.splits)
  from assms have n: "newline \<notin> set (fst item)"
    by (simp add: round_trip_record_def)
  from t have "newline \<notin> set (pystr ch)"
    by (auto simp add: list_all_iff dest: numchar_not_newline)
  with n ch show ?thesis
    by (simp add: series_line_def export_chapter_def newline_def)
qed

lemma category_block_lines:
  "set (category_block pystr g c) \<subseteq> {c @ '' :'', [], SEPARATOR} \<union> series_line pystr ` set g"
  by (auto simp add: category_block_def)

lemma output_lines_no_newline:
  assumes "distinct (map fst S)" and "list_all (round_trip_record pyfloat pystr) S"
  shows "\<forall>l\<in>set (output_lines pystr S). newline \<notin> set l"
proof
  fix l
  assume "l \<in> set (output_lines pystr S)"
  then consider "l \<in> {''Lecture:'', [], SEPARATOR}"
    | c where "c \<in> set CATEGORIES" and "l \<in> set (category_block pystr (grouped_data S c) c)"
    by (auto simp add: output_lines_def)
  then show "newline \<notin> set l"
  proof cases
    case 1
    then show ?thesis by (auto simp add: SEPARATOR_def newline_def)
  next
    case (2 c)
    with category_block_lines [of pystr "grouped_data S c" c]
    consider "l \<in> {c @ '' :'', [], SEPARATOR}"
      | item where "item \<in> set (grouped_data S c)" and "l = series_line pystr item"
      by blast
    then show ?thesis
    proof cases
      case 1
      with \<open>c \<in> set CATEGORIES\<close> show ?thesis
        by (auto simp add: SEPARATOR_def newline_def CATEGORIES_def)
    next
      case (2 item)
      with assms have "round_trip_record pyfloat pystr item"
        by (simp add: grouped_data_filter list_all_iff)
      with 2 show ?thesis by (simp add: series_line_no_newline)
    qed
  qed
qed

lemma lecture_ignored:
  "\<not> is_category_header (strip ''Lecture:'') \<and> series_entry pyfloat ''Lecture:'' = None"
  by (simp add: decode_eval text_eval)

lemma parse_lines_heading:
  "parse_lines pyfloat st [''Lecture:'', [], [], [], SEPARATOR, [], []] = st"
  by (rule parse_lines_ignored) (use lecture_ignored separator_ignored blank_ignored in auto)

lemma empty_store_text:
  "parse_series_data pyfloat (''Lecture:'' @ [newline, newline] @ SEPARATOR @ [newline, newline]
        @ ''[No series tracked]'') = []"
  by (simp add: decode_eval text_eval SEPARATOR_def)


text \<open>
  C1, as stated: decoding the text written for a store gives back the records of the store,
  whatever their names and chapters are. The line of a record whose name contains the
  separator token is skipped by the importer, and so is the line of a record whose
  chapter is a NaN, which \<^verbatim>\<open>str\<close> writes as \<^verbatim>\<open>nan\<close> and the pattern does not match: both
  stores come back empty.
\<close>

theorem round_trip_counterexample:
  "set (parse_series_data float_exact (format_data_to_text str_short
      [(''A-----B'', \<lparr>chapter = Some (Finite 5), category = Some ''Manga''\<rparr>)]))
    \<noteq> set [(''A-----B'', \<lparr>chapter = Some (Finite 5), category = Some ''Manga''\<rparr>)]
   \<and> set (parse_series_data float_exact (format_data_to_text str_short
      [(''X'', \<lparr>chapter = Some NaN, category = Some ''Manga''\<rparr>)]))
    \<noteq> set [(''X'', \<lparr>chapter = Some NaN, category = Some ''Manga''\<rparr>)]"
proof -
  have "parse_series_data float_exact (format_data_to_text str_short
      [(''A-----B'', \<lparr>chapter = Some (Finite 5), category = Some ''Manga''\<rparr>)]) = []"
    by (simp add: encode_eval decode_eval float_exact_eval)
  moreover have "parse_series_data float_exact (format_data_to_text str_short
      [(''X'', \<lparr>chapter = Some NaN, category = Some ''Manga''\<rparr>)]) = []"
    by (simp add: encode_eval decode_eval float_exact_eval)
  ultimately show ?thesis by simp
qed

text \<open>
  C1, amended. For a store (a dictionary: its names are distinct) in which every record is
  one that the text format carries (\<open>round_trip_record\<close>: a name that is not empty, without
  whitespace at its ends, without a newline and whose line does not contain the separator
  token; a category of the enumeration; a chapter that \<^verbatim>\<open>str\<close> writes with digits and points
  only and that \<^verbatim>\<open>float\<close> reads back from that text), decoding the encoded text gives a
  store with the same set of records, each name once.
\<close>

theorem round_trip:
  assumes "distinct (map fst S)" and "list_all (round_trip_record pyfloat pystr) S"
  shows "set (parse_series_data pyfloat (format_data_to_text pystr S)) = set S
    \<and> distinct (map fst (parse_series_data pyfloat (format_data_to_text pystr S)))"
proof (cases "S = []")
  case True
  then have e: "format_data_to_text pystr S = ''Lecture:'' @ [newline, newline] @ SEPARATOR
      @ [newline, newline] @ ''[No series tracked]''"
    by (simp only: format_data_to_text_def simp_thms if_True)
  show ?thesis unfolding e empty_store_text using True by simp
next
  case False
  let ?k = "\<lambda>item :: string \<times> info. lower (fst item)"
  let ?E = "concat (map (\<lambda>c. sort_key ?k (grouped_data S c)) CATEGORIES)"
  have g: "grouped_data S c = filter (\<lambda>item. export_category (snd item) = c) S" for c
    using assms(1) by (rule grouped_data_filter)
  have m: "mset ?E = mset S"
    by (simp only: g mset_regrouped)
  have rt: "\<forall>c\<in>set CATEGORIES. \<forall>item\<in>set (grouped_data S c).
      round_trip_record pyfloat pystr item \<and> category (snd item) = Some c"
  proof (intro ballI)
    fix c item
    assume "c \<in> set CATEGORIES" and "item \<in> set (grouped_data S c)"
    then have i: "item \<in> set S" and e: "export_category (snd item) = c"
      by (simp_all add: g)
    from i assms(2) have r: "round_trip_record pyfloat pystr item"
      by (simp add: list_all_iff)
    then obtain cat where "category (snd item) = Some cat" and "cat \<in> set CATEGORIES"
      by (auto simp add: round_trip_record_def split: option.splits)
    with e export_category_id [of "snd item" cat] r
    show "round_trip_record pyfloat pystr item \<and> category (snd item) = Some c"
      by simp
  qed
  have "parse_series_data pyfloat (format_data_to_text pystr S)
      = fst (parse_lines pyfloat ([], ''Other'') (output_lines pystr S))"
    using False output_lines_no_newline [OF assms]
    by (simp add: format_data_to_text_def decode_of_lines)
  also have "\<dots> = fst (parse_lines pyfloat ([], ''Other'')
      (concat (map (\<lambda>c. category_block pystr (grouped_data S c) c) CATEGORIES)))"
    by (simp only: output_lines_def parse_lines_append parse_lines_heading)
  also have "\<dots> = foldl assign [] ?E"
    using parse_lines_blocks [of CATEGORIES "grouped_data S" pyfloat pystr "([], ''Other'')"] rt
    by simp
  also have "\<dots> = ?E"
  proof -
    from m have "mset (map fst ?E) = mset (map fst S)"
      by (metis mset_map)
    with assms(1) have "distinct (map fst ?E)"
      by (metis mset_eq_imp_distinct_iff)
    then show ?thesis using foldl_assign_fresh [of "[]" ?E] by simp
  qed
  finally have r: "parse_series_data pyfloat (format_data_to_text pystr S) = ?E" .
  from m have "set ?E = set S" by (rule mset_eq_setD)
  moreover from m have "mset (map fst ?E) = mset (map fst S)" by (metis mset_map)
  with assms(1) have "distinct (map fst ?E)" by (metis mset_eq_imp_distinct_iff)
  ultimately show ?thesis by (simp only: r)
qed


theorem round_trip_witness:
  "distinct (map fst example_store)
   \<and> list_all (round_trip_record float_exact str_short) example_store
   \<and> set (parse_series_data float_exact (format_data_to_text str_short example_store))
      = set example_store"
proof -
  have d: "distinct (map fst example_store)"
    by (simp add: example_store_def)
  have r: "list_all (round_trip_record float_exact str_short) example_store"
    by (simp add: example_store_def round_trip_record_def series_line_def export_chapter_def
        str_short_def is_numchar_def CATEGORIES_def float_exact_eval)
  from round_trip [OF d r] d r show ?thesis by blast
qed

end
